theory Spec2Isabelle
  imports Complex_Main "HOL-Library.Char_ord" "HOL-Library.List_Lexorder"
begin

section \<open>Data model\<close>

text \<open>
  A subject record of \<^verbatim>\<open>users.json\<close> is a dictionary with the keys \<^verbatim>\<open>id\<close>,
  \<^verbatim>\<open>name\<close> and \<^verbatim>\<open>cpf\<close>.  \<^verbatim>\<open>register_user\<close> always writes an integer id, but
  every reader goes through \<^verbatim>\<open>u.get("id", ...)\<close>: the key may be missing, which is
  \<open>uid = None\<close> here.  The key \<^verbatim>\<open>cpf\<close> is only written when the cpf is non-empty.
\<close>

record user =
  uid :: "int option"
  name :: string
  cpf :: "string option"

text \<open>
  \<^verbatim>\<open>_safe_read_json\<close> answers \<^verbatim>\<open>[]\<close> for a missing file and for a file that does not
  decode; \<^verbatim>\<open>load_users\<close> answers \<^verbatim>\<open>[]\<close> for decoded JSON that is not a list.
\<close>

datatype users_file = NoFile | BadJson | UsersList "user list"

text \<open>One record of \<^verbatim>\<open>embeddings.pkl\<close>.  Descriptors are NumPy \<^verbatim>\<open>float32\<close> vectors,
  idealised as lists of reals.  An image path \<^verbatim>\<open>images/<id>/<file>\<close> is the pair of the
  directory's id and the file name.\<close>

record emb_rec =
  eid :: "int option"
  ename :: string
  ecpf :: "string option"
  eimage :: "int \<times> string"
  embedding :: "real list"

text \<open>\<^verbatim>\<open>_load_embeddings\<close> answers \<^verbatim>\<open>[]\<close> for a missing file, for a file that does not
  unpickle and for a pickled value that is not a list.\<close>

datatype pkl_file = NoPkl | BadPkl | PklList "emb_rec list"

text \<open>The SQLite copy: a row of table \<^verbatim>\<open>embeddings\<close> and a row of table \<^verbatim>\<open>subjects\<close>.\<close>

record sql_embedding =
  subject_id :: int
  image_path :: "int \<times> string"
  embedding_json :: "real list"

record sql_subject =
  sname :: string
  scpf :: "string option"

text \<open>One cell of a row handed to \<^verbatim>\<open>csv.writer.writerow\<close>.\<close>

datatype cell = CStr string | CInt int | CNone

text \<open>
  The persistent store.  \<open>images\<close> maps a user id to the sorted list of the \<^verbatim>\<open>*.jpg\<close>
  files of the directory \<^verbatim>\<open>images/<id>/\<close>; the directory exists exactly when the id is
  in the domain.  \<open>access_log\<close> holds the rows of \<^verbatim>\<open>access_log.csv\<close>, \<open>None\<close> when the
  file does not exist.
\<close>

record store =
  users_json :: users_file
  images :: "int \<rightharpoonup> string list"
  embeddings_pkl :: pkl_file
  sql_embeddings :: "sql_embedding list"
  sql_subjects :: "int \<rightharpoonup> sql_subject"
  access_log :: "cell list list option"

section \<open>Subject registry (database\_utils.py)\<close>

definition load_users :: "store \<Rightarrow> user list" where
  "load_users fs = (case users_json fs of UsersList us \<Rightarrow> us | _ \<Rightarrow> [])"

definition save_users :: "user list \<Rightarrow> store \<Rightarrow> store" where
  "save_users users fs = fs\<lparr>users_json := UsersList users\<rparr>"

text \<open>\<^verbatim>\<open>int(u.get("id", d))\<close>: the stored id, or the default when the key is missing.\<close>

definition id_or :: "int \<Rightarrow> user \<Rightarrow> int" where
  "id_or d u = (case uid u of None \<Rightarrow> d | Some i \<Rightarrow> i)"

definition get_next_user_id :: "user list \<Rightarrow> int" where
  "get_next_user_id users =
     (if users = [] then 1 else Max (set (map (id_or 0) users)) + 1)"

definition register_user :: "string \<Rightarrow> string \<Rightarrow> store \<Rightarrow> int \<times> store" where
  "register_user nm cpf_in fs =
     (let users = load_users fs;
          user_id = get_next_user_id users;
          u = \<lparr>uid = Some user_id, name = nm,
               cpf = (if cpf_in \<noteq> [] then Some cpf_in else None)\<rparr>
      in (user_id, save_users (users @ [u]) fs))"

definition delete_user :: "int \<Rightarrow> bool \<Rightarrow> store \<Rightarrow> bool \<times> store" where
  "delete_user user_id delete_images fs =
     (let users = load_users fs;
          remaining = filter (\<lambda>u. id_or (- 1) u \<noteq> user_id) users
      in if length remaining = length users then (False, fs)
         else
           (let fs1 = save_users remaining fs;
                fs2 = (if delete_images
                       then (if images fs1 user_id \<noteq> None
                             then fs1\<lparr>images := (images fs1)(user_id := None)\<rparr>
                             else fs1)
                       else fs1)
            in (True, fs2)))"

text \<open>
  Writes to \<^verbatim>\<open>users.json\<close> and to the image directories are taken to succeed: a
  failing write is caught and logged by \<^verbatim>\<open>_safe_write_json\<close> and by the handler around
  \<^verbatim>\<open>shutil.rmtree\<close>, it depends on the file system only and leaves the store as it was.
\<close>

section \<open>Embedding builder (train\_embeddings.py, sql\_database.py)\<close>

datatype py_error = TypeError | ValueError | KeyError | IndexError | OSError



text \<open>\<^verbatim>\<open>DeepFace.represent(..., enforce_detection=False)\<close> on a stored image: it raises,
  returns an empty list, or returns representations of which the first one's descriptor
  is used.\<close>

datatype extraction = ExtractRaises | NoReps | Rep "real list"







section \<open>Match engine (recognize\_face.py)\<close>

definition DEFAULT_THRESHOLD :: real where "DEFAULT_THRESHOLD = 6 / 10"
definition LIVENESS_DIFF_THRESHOLD :: real where "LIVENESS_DIFF_THRESHOLD = 1"
definition LIVENESS_STATIC_FRAMES :: nat where "LIVENESS_STATIC_FRAMES = 10"
definition CLASSIFIER_MIN_PROBA :: real where "CLASSIFIER_MIN_PROBA = 8 / 10"

definition load_embeddings :: "store \<Rightarrow> emb_rec list" where
  "load_embeddings fs = (case embeddings_pkl fs of PklList es \<Rightarrow> es | _ \<Rightarrow> [])"

text \<open>\<^verbatim>\<open>np.linalg.norm\<close> of a vector, and the vector divided by its norm plus \<^verbatim>\<open>1e-8\<close>.\<close>

definition l2norm :: "real list \<Rightarrow> real" where
  "l2norm v = sqrt (sum_list (map (\<lambda>x. x * x) v))"

definition unit_norm :: "real list \<Rightarrow> real list" where
  "unit_norm v = map (\<lambda>x. x / (l2norm v + 1 / 10 ^ 8)) v"

text \<open>\<^verbatim>\<open>np.stack\<close> wants rows of one shape.\<close>

definition stack :: "real list list \<Rightarrow> py_error + real list list" where
  "stack rows =
     (case rows of
        [] \<Rightarrow> Inl ValueError
      | r # rs \<Rightarrow> if \<forall>r' \<in> set rs. length r' = length r then Inr rows else Inl ValueError)"

text \<open>A row of \<^verbatim>\<open>db_vectors_norm - query_norm\<close> under NumPy broadcasting: equal lengths
  subtract pointwise, a length of one is stretched, anything else raises.\<close>

definition broadcast_sub :: "real list \<Rightarrow> real list \<Rightarrow> py_error + real list" where
  "broadcast_sub r q =
     (if length r = length q then Inr (map2 (\<lambda>a b. a - b) r q)
      else if length q = 1 then Inr (map (\<lambda>a. a - hd q) r)
      else if length r = 1 then Inr (map (\<lambda>b. hd r - b) q)
      else Inl ValueError)"

text \<open>\<^verbatim>\<open>np.argmin\<close> and \<^verbatim>\<open>np.argmax\<close>: the first index of an extreme value; they raise
  on an empty array.\<close>

fun argmin_from :: "nat \<Rightarrow> real \<Rightarrow> nat \<Rightarrow> real list \<Rightarrow> nat" where
  "argmin_from bi bv i [] = bi"
| "argmin_from bi bv i (x # xs) =
     (if x < bv then argmin_from i x (Suc i) xs else argmin_from bi bv (Suc i) xs)"

definition argmin :: "real list \<Rightarrow> nat option" where
  "argmin xs = (case xs of [] \<Rightarrow> None | x # r \<Rightarrow> Some (argmin_from 0 x 1 r))"

fun argmax_from :: "nat \<Rightarrow> real \<Rightarrow> nat \<Rightarrow> real list \<Rightarrow> nat" where
  "argmax_from bi bv i [] = bi"
| "argmax_from bi bv i (x # xs) =
     (if bv < x then argmax_from i x (Suc i) xs else argmax_from bi bv (Suc i) xs)"

definition argmax :: "real list \<Rightarrow> nat option" where
  "argmax xs = (case xs of [] \<Rightarrow> None | x # r \<Rightarrow> Some (argmax_from 0 x 1 r))"

text \<open>Lines 127 to 139 of \<^verbatim>\<open>_find_best_match\<close>: the distances of the normalised query to
  the normalised references.\<close>

fun sub_rows :: "real list list \<Rightarrow> real list \<Rightarrow> py_error + real list list" where
  "sub_rows [] q = Inr []"
| "sub_rows (r # rs) q =
     (case broadcast_sub r q of
        Inl e \<Rightarrow> Inl e
      | Inr d \<Rightarrow> (case sub_rows rs q of Inl e \<Rightarrow> Inl e | Inr ds \<Rightarrow> Inr (d # ds)))"

definition normalized_dists :: "real list \<Rightarrow> emb_rec list \<Rightarrow> py_error + real list" where
  "normalized_dists query_embedding embeddings =
     (case stack (map embedding embeddings) of
        Inl e \<Rightarrow> Inl e
      | Inr db_vectors \<Rightarrow>
          (let db_vectors_norm = map unit_norm db_vectors;
               query_norm = unit_norm query_embedding
           in case sub_rows db_vectors_norm query_norm of
                Inl e \<Rightarrow> Inl e
              | Inr diff \<Rightarrow> Inr (map l2norm diff)))"

text \<open>Lines 140 to 145: the first reference of least distance, accepted below the
  threshold.\<close>

definition select_best ::
  "emb_rec list \<Rightarrow> real list \<Rightarrow> real \<Rightarrow> py_error + emb_rec option \<times> real option" where
  "select_best embeddings dists threshold =
     (case argmin dists of
        None \<Rightarrow> Inl ValueError
      | Some idx \<Rightarrow>
          (let best_dist = dists ! idx
           in if best_dist < threshold then Inr (Some (embeddings ! idx), Some best_dist)
              else Inr (None, Some best_dist)))"

definition find_best_match ::
  "real list \<Rightarrow> emb_rec list \<Rightarrow> real \<Rightarrow> py_error + emb_rec option \<times> real option" where
  "find_best_match query_embedding embeddings threshold =
     (if embeddings = [] then Inr (None, None)
      else (case normalized_dists query_embedding embeddings of
              Inl e \<Rightarrow> Inl e
            | Inr dists \<Rightarrow> select_best embeddings dists threshold))"

text \<open>A match is a dictionary read through the keys \<^verbatim>\<open>id\<close>, \<^verbatim>\<open>name\<close> and \<^verbatim>\<open>cpf\<close>: the
  one the classifier path builds, or the reference record the distance path returns.\<close>

record match =
  mid :: "int option"
  mname :: string
  mcpf :: "string option"

definition match_of_emb :: "emb_rec \<Rightarrow> match" where
  "match_of_emb e = \<lparr>mid = eid e, mname = ename e, mcpf = ecpf e\<rparr>"

text \<open>\<^verbatim>\<open>str\<close> of an integer.\<close>

function str_of_nat :: "nat \<Rightarrow> string" where
  "str_of_nat n =
     (if n < 10 then [''0123456789'' ! n]
      else str_of_nat (n div 10) @ [''0123456789'' ! (n mod 10)])"
  by pat_completeness auto
termination
  by (relation "measure id") auto

definition str_of_int :: "int \<Rightarrow> string" where
  "str_of_int i = (if i < 0 then CHR ''-'' # str_of_nat (nat (- i)) else str_of_nat (nat i))"

text \<open>The trained classifier: \<^verbatim>\<open>predict_proba\<close> on one query gives the row of class
  probabilities or raises (\<open>None\<close>); \<^verbatim>\<open>classes\_\<close> lists the subject ids of the classes;
  \<open>meta\<close> is the metadata saved with the model.\<close>

record classifier_bundle =
  predict_proba :: "real list \<Rightarrow> real list option"
  classes :: "int list"
  meta :: "int \<rightharpoonup> sql_subject"

record session =
  threshold :: real
  active_user_ids :: "int set"
  filtered_embeddings :: "emb_rec list"
  classifier :: "classifier_bundle option"

definition session_init :: "real \<Rightarrow> classifier_bundle option \<Rightarrow> store \<Rightarrow> session" where
  "session_init thr bundle fs =
     (let embeddings = load_embeddings fs;
          users = load_users fs;
          active = set (List.map_filter uid users)
      in \<lparr>threshold = thr,
          active_user_ids = active,
          filtered_embeddings =
            filter (\<lambda>e. case eid e of None \<Rightarrow> False | Some sid \<Rightarrow> sid \<in> active) embeddings,
          classifier = bundle\<rparr>)"

text \<open>Lines 256 to 276: the classifier path.  The second component is \<^verbatim>\<open>best_proba\<close>,
  which stays assigned when the prediction is not accepted.\<close>

definition classifier_path :: "session \<Rightarrow> real list \<Rightarrow> match option \<times> real option" where
  "classifier_path sess query_emb =
     (case classifier sess of
        None \<Rightarrow> (None, None)
      | Some c \<Rightarrow>
          (case predict_proba c query_emb of
             None \<Rightarrow> (None, None)
           | Some probs \<Rightarrow>
               (case argmax probs of
                  None \<Rightarrow> (None, None)
                | Some best_idx \<Rightarrow>
                    (let best_proba = probs ! best_idx
                     in if length (classes c) \<le> best_idx then (None, Some best_proba)
                        else
                          (let predicted_id = classes c ! best_idx
                           in if CLASSIFIER_MIN_PROBA \<le> best_proba
                                 \<and> predicted_id \<in> active_user_ids sess
                              then (Some \<lparr>mid = Some predicted_id,
                                           mname = (case meta c predicted_id of
                                                      None \<Rightarrow> str_of_int predicted_id
                                                    | Some sm \<Rightarrow> sname sm),
                                           mcpf = (case meta c predicted_id of
                                                     None \<Rightarrow> None
                                                   | Some sm \<Rightarrow> scpf sm)\<rparr>,
                                    Some best_proba)
                              else (None, Some best_proba))))))"

text \<open>Lines 280 to 291: the distance path, entered when the classifier path left no
  match.\<close>

definition distance_path ::
  "session \<Rightarrow> real list \<Rightarrow> match option \<Rightarrow> py_error + match option \<times> real option" where
  "distance_path sess query_emb m =
     (if m \<noteq> None then Inr (m, None)
      else if filtered_embeddings sess = [] then Inr (None, None)
      else (case find_best_match query_emb (filtered_embeddings sess) (threshold sess) of
              Inl e \<Rightarrow> Inl e
            | Inr (best, d) \<Rightarrow> Inr (map_option match_of_emb best, d)))"

definition match_engine ::
  "session \<Rightarrow> real list \<Rightarrow> py_error + match option \<times> real option \<times> real option" where
  "match_engine sess query_emb =
     (let (m, best_proba) = classifier_path sess query_emb
      in case distance_path sess query_emb m of
           Inl e \<Rightarrow> Inl e
         | Inr (m', d) \<Rightarrow> Inr (m', d, best_proba))"

section \<open>Frames, liveness filter and stability gate (recognize\_face.py)\<close>

text \<open>
  What the camera and DeepFace deliver for one iteration of a loop: \<open>ret\<close> and the frame's
  height and width from \<^verbatim>\<open>cap.read()\<close>; \<open>reps\<close>, \<open>None\<close> when \<^verbatim>\<open>DeepFace.represent\<close> raised
  or returned an empty list; \<open>now\<close>, the reading of \<^verbatim>\<open>datetime.now()\<close> in microseconds;
  \<open>key\<close>, the value of \<^verbatim>\<open>cv2.waitKey(1) & 0xFF\<close>.  Of the first representation the loops
  read the descriptor and the facial area (\<open>None\<close> when it is not a dictionary);
  \<open>gray_roi\<close> is the face region of the frame after \<^verbatim>\<open>cv2.cvtColor\<close> and
  \<^verbatim>\<open>cv2.resize(.., (64, 64))\<close>, one grey level per pixel.
\<close>

record face_rep =
  query_emb :: "real list"
  facial_area :: "(int \<times> int \<times> int \<times> int) option"
  gray_roi :: "nat list"

record frame =
  ret :: bool
  frame_h :: int
  frame_w :: int
  reps :: "face_rep option"
  now :: int
  key :: nat

text \<open>Lines 295 to 307: the facial area clamped to the frame, as \<open>(x, y, x2, y2)\<close>.\<close>

definition clamp_box :: "int \<times> int \<times> int \<times> int \<Rightarrow> int \<Rightarrow> int \<Rightarrow> (int \<times> int \<times> int \<times> int) option" where
  "clamp_box fa width height =
     (case fa of (x0, y0, w0, h0) \<Rightarrow>
        (let x = max 0 x0; y = max 0 y0; w = max 0 w0; h = max 0 h0;
             x2 = min width (x + w); y2 = min height (y + h)
         in if x < x2 \<and> y < y2 then Some (x, y, x2, y2) else None))"

text \<open>\<^verbatim>\<open>cv2.absdiff(gray_roi, prev).mean()\<close>.\<close>

definition mean_absdiff :: "nat list \<Rightarrow> nat list \<Rightarrow> real" where
  "mean_absdiff g p =
     real (sum_list (map2 (\<lambda>a b. if b \<le> a then a - b else b - a) g p)) / real (length g)"

text \<open>Lines 315 to 325, the same in both loops: the new static counter.  Both crops are
  64 by 64, so the comparison of shapes is the comparison of the numbers of pixels.\<close>

definition static_update :: "nat list \<Rightarrow> nat list option \<Rightarrow> nat \<Rightarrow> nat" where
  "static_update g prev static =
     (case prev of
        None \<Rightarrow> 0
      | Some p \<Rightarrow>
          if length p = length g
          then (if mean_absdiff g p < LIVENESS_DIFF_THRESHOLD then static + 1 else 0)
          else 0)"

record rec_state =
  prev_face_roi_gray :: "nat list option"
  static_frames :: nat
  last_recognized_user_id :: "int option"
  pending_user_id :: "int option"
  pending_start_time :: "int option"

definition initial_state :: rec_state where
  "initial_state = \<lparr>prev_face_roi_gray = None, static_frames = 0,
                     last_recognized_user_id = None, pending_user_id = None,
                     pending_start_time = None\<rparr>"

text \<open>Lines 312 to 330: the liveness filter of the recognition loop and its verdict
  \<^verbatim>\<open>is_live\<close>.\<close>

definition liveness :: "nat list \<Rightarrow> rec_state \<Rightarrow> rec_state \<times> bool" where
  "liveness g st =
     (let s = static_update g (prev_face_roi_gray st) (static_frames st);
          st' = st\<lparr>prev_face_roi_gray := Some g, static_frames := s\<rparr>
      in (st', \<not> LIVENESS_STATIC_FRAMES \<le> s))"

text \<open>Lines 334 to 356 and 486 to 489: the stability gate on a match at time \<open>t\<close>.  The
  second component lists the calls of \<^verbatim>\<open>_log_access_event\<close>, each with the match and the
  time of the call.\<close>

definition stability_window :: int where
  "stability_window = 3000000"

definition stability_gate :: "match \<Rightarrow> int \<Rightarrow> rec_state \<Rightarrow> rec_state \<times> (match \<times> int) list" where
  "stability_gate m t st =
     (case mid m of
        None \<Rightarrow> (st\<lparr>pending_user_id := None, pending_start_time := None\<rparr>, [])
      | Some current_user_id \<Rightarrow>
          if pending_user_id st \<noteq> Some current_user_id
          then (st\<lparr>pending_user_id := Some current_user_id, pending_start_time := Some t\<rparr>, [])
          else (case pending_start_time st of
                  None \<Rightarrow> (st, [])
                | Some t0 \<Rightarrow>
                    if stability_window \<le> t - t0
                       \<and> Some current_user_id \<noteq> last_recognized_user_id st
                    then (st\<lparr>last_recognized_user_id := Some current_user_id\<rparr>, [(m, t)])
                    else (st, [])))"

text \<open>Lines 492 to 499: the re-check of the matched id against the active subjects.\<close>

definition recheck :: "int set \<Rightarrow> match option \<Rightarrow> match option" where
  "recheck active m =
     (case m of
        None \<Rightarrow> None
      | Some mt \<Rightarrow> (case mid mt of
                      None \<Rightarrow> None
                    | Some i \<Rightarrow> if i \<in> active then Some mt else None))"

text \<open>What one iteration leaves behind besides the state: the access events logged, the
  match the overlay shows, and \<^verbatim>\<open>is_live\<close>.\<close>

record frame_out =
  events :: "(match \<times> int) list"
  shown :: "match option"
  is_live :: "bool option"

text \<open>Lines 293 to 489: liveness filter and gate, both inside the test of the clamped
  box.  A frame is an array of height by width by three.\<close>

definition box_stage ::
  "frame \<Rightarrow> face_rep \<Rightarrow> match option \<Rightarrow> rec_state \<Rightarrow> rec_state \<times> bool option \<times> (match \<times> int) list" where
  "box_stage fr r m st =
     (case facial_area r of
        None \<Rightarrow> (st, None, [])
      | Some fa \<Rightarrow>
          (case clamp_box fa (frame_w fr) (frame_h fr) of
             None \<Rightarrow> (st, None, [])
           | Some (x, y, x2, y2) \<Rightarrow>
               (let (st1, live) =
                      (if 0 < (y2 - y) * (x2 - x) * 3
                       then (case liveness (gray_roi r) st of (s, l) \<Rightarrow> (s, Some l))
                       else (st, None))
                in case m of
                     None \<Rightarrow> (st1, live, [])
                   | Some mt \<Rightarrow>
                       if live \<noteq> Some False
                       then (case stability_gate mt (now fr) st1 of (st2, evs) \<Rightarrow> (st2, live, evs))
                       else (st1, live, []))))"

text \<open>The body of the loop from line 224 to line 526 for a frame that was read.\<close>

definition process_frame :: "session \<Rightarrow> frame \<Rightarrow> rec_state \<Rightarrow> py_error + rec_state \<times> frame_out" where
  "process_frame sess fr st =
     (case reps fr of
        None \<Rightarrow> Inr (st, \<lparr>events = [], shown = None, is_live = None\<rparr>)
      | Some r \<Rightarrow>
          (case match_engine sess (query_emb r) of
             Inl e \<Rightarrow> Inl e
           | Inr (m, d, best_proba) \<Rightarrow>
               (case box_stage fr r m st of
                  (st1, live, evs) \<Rightarrow>
                    (let m' = recheck (active_user_ids sess) m;
                         st2 = (if m' = None
                                then st1\<lparr>pending_user_id := None, pending_start_time := None\<rparr>
                                else st1)
                     in Inr (st2, \<lparr>events = evs, shown = m', is_live = live\<rparr>)))))"

text \<open>The loop over the frames the camera has delivered so far.  It ends on a failed
  read, on the key Q, or with the exception of the distance search, which nothing
  catches; on the last delivered frame it is still running.\<close>

datatype loop_end = CameraRunning | ReadFailed | QuitKey | Raised py_error

fun recognize_loop ::
  "session \<Rightarrow> frame list \<Rightarrow> rec_state \<Rightarrow> (match \<times> int) list
     \<Rightarrow> loop_end \<times> rec_state \<times> (match \<times> int) list" where
  "recognize_loop sess [] st evs = (CameraRunning, st, evs)"
| "recognize_loop sess (fr # frs) st evs =
     (if \<not> ret fr then (ReadFailed, st, evs)
      else (case process_frame sess fr st of
              Inl e \<Rightarrow> (Raised e, st, evs)
            | Inr (st', out) \<Rightarrow>
                if key fr = 113 \<or> key fr = 81 then (QuitKey, st', evs @ events out)
                else recognize_loop sess frs st' (evs @ events out)))"

definition recognize_from_camera ::
  "real \<Rightarrow> classifier_bundle option \<Rightarrow> bool \<Rightarrow> frame list \<Rightarrow> store
     \<Rightarrow> (loop_end \<times> rec_state \<times> (match \<times> int) list) option" where
  "recognize_from_camera thr bundle cam_opened frames fs =
     (if \<not> cam_opened then None
      else Some (recognize_loop (session_init thr bundle fs) frames initial_state []))"

section \<open>Access logger (recognize\_face.py)\<close>

text \<open>
  What can go wrong inside the \<^verbatim>\<open>try\<close> block of \<^verbatim>\<open>_log_access_event\<close>: creating the
  directory, opening the file for appending, writing the header, writing the row.
\<close>

datatype io_fault = NoFault | MkdirFails | OpenAppendFails | HeaderWriteFails | RowWriteFails

definition header_row :: "cell list" where
  "header_row = [CStr ''timestamp'', CStr ''user_id'', CStr ''name'', CStr ''cpf'']"

definition access_row :: "match \<Rightarrow> string \<Rightarrow> cell list" where
  "access_row user timestamp =
     [CStr timestamp,
      (case mid user of None \<Rightarrow> CNone | Some i \<Rightarrow> CInt i),
      CStr (mname user),
      (case mcpf user of None \<Rightarrow> CNone | Some c \<Rightarrow> CStr c)]"

text \<open>The \<^verbatim>\<open>try\<close> block: the store when the block is left, and the exception that left
  it, if any.  Opening in mode \<^verbatim>\<open>"a"\<close> creates a missing file.\<close>

definition log_access_try :: "io_fault \<Rightarrow> match \<Rightarrow> string \<Rightarrow> store \<Rightarrow> store \<times> py_error option" where
  "log_access_try fault user timestamp fs =
     (if fault = MkdirFails then (fs, Some OSError)
      else
        (let file_exists = (access_log fs \<noteq> None)
         in if fault = OpenAppendFails then (fs, Some OSError)
            else
              (let rows0 = (case access_log fs of None \<Rightarrow> [] | Some rows \<Rightarrow> rows)
               in if \<not> file_exists \<and> fault = HeaderWriteFails
                  then (fs\<lparr>access_log := Some rows0\<rparr>, Some OSError)
                  else
                    (let rows1 = (if \<not> file_exists then rows0 @ [header_row] else rows0)
                     in if fault = RowWriteFails
                        then (fs\<lparr>access_log := Some rows1\<rparr>, Some OSError)
                        else (fs\<lparr>access_log := Some (rows1 @ [access_row user timestamp])\<rparr>,
                              None)))))"

text \<open>What \<^verbatim>\<open>_log_access_event\<close> writes to the program's own log.\<close>

datatype log_line = InfoLogged | ExceptionLogged py_error

text \<open>\<^verbatim>\<open>_log_access_event\<close>: \<open>Inl\<close> would be an exception reaching the caller.\<close>

definition log_access_event ::
  "io_fault \<Rightarrow> match \<Rightarrow> string \<Rightarrow> store \<Rightarrow> py_error + store \<times> log_line" where
  "log_access_event fault user timestamp fs =
     (case log_access_try fault user timestamp fs of
        (fs', None) \<Rightarrow> Inr (fs', InfoLogged)
      | (fs', Some exc) \<Rightarrow> Inr (fs', ExceptionLogged exc))"

section \<open>Enrollment capture loop (capture\_faces.py)\<close>

definition create_user_image_dir :: "int \<Rightarrow> store \<Rightarrow> store" where
  "create_user_image_dir user_id fs =
     (case images fs user_id of
        None \<Rightarrow> fs\<lparr>images := (images fs)(user_id \<mapsto> [])\<rparr>
      | Some files \<Rightarrow> fs)"

text \<open>The file name \<^verbatim>\<open>f"{captured:03d}.jpg"\<close>, and \<^verbatim>\<open>cv2.imwrite\<close> into the directory of
  the user.\<close>

definition jpg_name :: "nat \<Rightarrow> string" where
  "jpg_name captured =
     replicate (3 - length (str_of_nat captured)) CHR ''0'' @ str_of_nat captured @ ''.jpg''"

definition imwrite :: "int \<Rightarrow> string \<Rightarrow> store \<Rightarrow> store" where
  "imwrite user_id file fs =
     (case images fs user_id of
        None \<Rightarrow> fs
      | Some files \<Rightarrow>
          fs\<lparr>images := (images fs)(user_id \<mapsto>
                 (if file \<in> set files then files else insort file files))\<rparr>)"

definition STABLE_LIVE_FRAMES :: nat where "STABLE_LIVE_FRAMES = 5"
definition CAPTURE_INTERVAL :: nat where "CAPTURE_INTERVAL = 5"

record cap_state =
  captured :: nat
  frame_count :: nat
  cap_prev_face_roi_gray :: "nat list option"
  cap_static_frames :: nat
  live_stable_frames :: nat
  cap_store :: store

text \<open>Lines 111 to 157: the liveness filter of the capture loop; the second component
  is \<^verbatim>\<open>has_live_face\<close>.\<close>

definition capture_liveness :: "frame \<Rightarrow> cap_state \<Rightarrow> cap_state \<times> bool" where
  "capture_liveness fr cs =
     (case reps fr of
        None \<Rightarrow> (cs, False)
      | Some r \<Rightarrow>
          (case facial_area r of
             None \<Rightarrow> (cs, False)
           | Some fa \<Rightarrow>
               (case clamp_box fa (frame_w fr) (frame_h fr) of
                  None \<Rightarrow> (cs, False)
                | Some (x, y, x2, y2) \<Rightarrow>
                    if 0 < (y2 - y) * (x2 - x) * 3
                    then
                      (let s = static_update (gray_roi r) (cap_prev_face_roi_gray cs)
                                 (cap_static_frames cs);
                           cs1 = cs\<lparr>cap_prev_face_roi_gray := Some (gray_roi r),
                                    cap_static_frames := s\<rparr>
                       in if LIVENESS_STATIC_FRAMES \<le> s
                          then (cs1\<lparr>live_stable_frames := 0\<rparr>, False)
                          else (cs1\<lparr>live_stable_frames := live_stable_frames cs1 + 1\<rparr>, True))
                    else (cs, False))))"

text \<open>The loop of \<^verbatim>\<open>capture_user_faces\<close> over the frames delivered so far: \<open>None\<close> when
  the loop has not ended on them.\<close>

fun capture_loop :: "int \<Rightarrow> int \<Rightarrow> frame list \<Rightarrow> cap_state \<Rightarrow> cap_state option" where
  "capture_loop user_id num_images [] cs = None"
| "capture_loop user_id num_images (fr # frs) cs =
     (if \<not> ret fr then Some cs
      else
        (case capture_liveness fr cs of
           (cs1, has_live_face) \<Rightarrow>
             (let quit = (key fr = 113 \<or> key fr = 81)
              in if has_live_face \<and> STABLE_LIVE_FRAMES \<le> live_stable_frames cs1
                 then
                   (let cs2 = cs1\<lparr>frame_count := frame_count cs1 + 1\<rparr>
                    in if frame_count cs2 mod CAPTURE_INTERVAL = 0
                          \<and> int (captured cs2) < num_images
                       then
                         (let cs3 = cs2\<lparr>cap_store := imwrite user_id (jpg_name (captured cs2))
                                                        (cap_store cs2),
                                         captured := captured cs2 + 1\<rparr>
                          in if num_images \<le> int (captured cs3) then Some cs3
                             else if quit then Some cs3
                             else capture_loop user_id num_images frs cs3)
                       else if quit then Some cs2
                       else capture_loop user_id num_images frs cs2)
                 else if quit then Some cs1
                 else capture_loop user_id num_images frs cs1)))"

definition initial_cap_state :: "store \<Rightarrow> cap_state" where
  "initial_cap_state fs =
     \<lparr>captured = 0, frame_count = 0, cap_prev_face_roi_gray = None,
      cap_static_frames = 0, live_stable_frames = 0, cap_store = fs\<rparr>"

text \<open>\<^verbatim>\<open>capture_user_faces\<close>: the outer \<open>None\<close> is a loop that has not ended, the inner
  one is Python's \<^verbatim>\<open>None\<close>.\<close>

definition capture_user_faces ::
  "string \<Rightarrow> string \<Rightarrow> int \<Rightarrow> bool \<Rightarrow> frame list \<Rightarrow> store \<Rightarrow> (int option \<times> store) option" where
  "capture_user_faces nm cpf_in num_images cam_opened frames fs =
     (if \<not> cam_opened then Some (None, fs)
      else
        (case register_user nm cpf_in fs of
           (user_id, fs1) \<Rightarrow>
             (case capture_loop user_id num_images frames
                     (initial_cap_state (create_user_image_dir user_id fs1)) of
                None \<Rightarrow> None
              | Some cs \<Rightarrow>
                  if captured cs = 0
                  then (case delete_user user_id True (cap_store cs) of
                          (removed, fs2) \<Rightarrow> Some (None, fs2))
                  else Some (Some user_id, cap_store cs))))"

section \<open>Example data\<close>

definition ana :: user where
  "ana = \<lparr>uid = Some 1, name = ''Ana'', cpf = None\<rparr>"

definition bruno :: user where
  "bruno = \<lparr>uid = Some 2, name = ''Bruno'', cpf = None\<rparr>"

definition empty_store :: store where
  "empty_store = \<lparr>users_json = NoFile, images = Map.empty, embeddings_pkl = NoPkl,
                   sql_embeddings = [], sql_subjects = Map.empty, access_log = None\<rparr>"

definition two_users :: store where
  "two_users = empty_store\<lparr>users_json := UsersList [ana, bruno]\<rparr>"

definition ana_match :: match where "ana_match = \<lparr>mid = Some 1, mname = ''Ana'', mcpf = None\<rparr>"

definition ana_emb :: emb_rec where
  "ana_emb = \<lparr>eid = Some 1, ename = ''Ana'', ecpf = None, eimage = (1, ''000.jpg''),
              embedding = [1, 0]\<rparr>"

definition bruno_emb :: emb_rec where
  "bruno_emb = \<lparr>eid = Some 2, ename = ''Bruno'', ecpf = None, eimage = (2, ''000.jpg''),
                embedding = [0, 1]\<rparr>"

definition enrolled :: store where
  "enrolled = two_users\<lparr>images := [1 \<mapsto> [''000.jpg''], 2 \<mapsto> [''000.jpg'']],
                         embeddings_pkl := PklList [ana_emb, bruno_emb]\<rparr>"



text \<open>The liveness filter of the recognition loop over a sequence of face crops: the
  state after the last crop and the verdict \<^verbatim>\<open>is_live\<close> of each crop.\<close>

fun liveness_run :: "nat list list \<Rightarrow> rec_state \<Rightarrow> rec_state \<times> bool list" where
  "liveness_run [] st = (st, [])"
| "liveness_run (g # gs) st =
     (fst (liveness_run gs (fst (liveness g st))),
      snd (liveness g st) # snd (liveness_run gs (fst (liveness g st))))"

text \<open>A crop of 64 by 64 pixels of one grey level.\<close>

definition gray_crop :: "nat \<Rightarrow> nat list" where
  "gray_crop v = replicate (64 * 64) v"

text \<open>What line 181 to 189 establish: every reference kept for the distance search has
  the id of an active subject.\<close>

definition filtered_ok :: "session \<Rightarrow> bool" where
  "filtered_ok sess \<longleftrightarrow>
     list_all (\<lambda>e. case eid e of None \<Rightarrow> False | Some i \<Rightarrow> i \<in> active_user_ids sess)
       (filtered_embeddings sess)"

definition demo_bundle :: classifier_bundle where
  "demo_bundle = \<lparr>predict_proba = (\<lambda>q. Some [9 / 10]), classes = [1],
                   meta = [1 \<mapsto> \<lparr>sname = ''Ana'', scpf = None\<rparr>]\<rparr>"


definition face :: "nat \<Rightarrow> face_rep" where
  "face v = \<lparr>query_emb = [1, 0], facial_area = Some (10, 10, 50, 50), gray_roi = gray_crop v\<rparr>"

definition live_frame :: "nat \<Rightarrow> int \<Rightarrow> frame" where
  "live_frame v t = \<lparr>ret = True, frame_h = 480, frame_w = 640, reps = Some (face v),
                      now = t, key = 255\<rparr>"

section \<open>Properties of the registry\<close>









section \<open>Properties of the access logger\<close>

lemma log_access_event_returns:
  "\<exists>fs' l. log_access_event fault user ts fs = Inr (fs', l)"
  by (cases "log_access_try fault user ts fs") (auto simp: log_access_event_def split: option.splits)

lemma log_access_event_ok:
  "log_access_event NoFault user ts fs =
     Inr (fs\<lparr>access_log := Some ((case access_log fs of None \<Rightarrow> [header_row] | Some rows \<Rightarrow> rows)
                                   @ [access_row user ts])\<rparr>, InfoLogged)"
  by (simp add: log_access_event_def log_access_try_def Let_def split: option.splits)

lemma log_access_try_keeps:
  "access_log fs = Some rows \<Longrightarrow>
     access_log (fst (log_access_try fault user ts fs)) = Some rows
     \<or> access_log (fst (log_access_try fault user ts fs)) = Some (rows @ [access_row user ts])"
  by (cases fault) (auto simp: log_access_try_def Let_def)

lemma log_access_caught:
  "log_access_try fault user ts fs = (fs', Some e)
     \<Longrightarrow> log_access_event fault user ts fs = Inr (fs', ExceptionLogged e)"
  by (simp add: log_access_event_def)

text \<open>
  C9, with the header the code writes.  Whatever fails inside, \<^verbatim>\<open>_log_access_event\<close>
  returns to its caller and no exception leaves it.  The header row is
  \<^verbatim>\<open>timestamp;user_id;name;cpf\<close>.  When nothing fails, the file afterwards is the file
  before (or the header alone, when the file did not exist) followed by the one row of
  the event.  Under any failure the rows that were in the file stay as they were, at most
  the row of the event comes after them, and an exception of the \<^verbatim>\<open>try\<close> block is logged.
\<close>

theorem access_log_append:
  "(\<exists>fs' l. log_access_event fault user ts fs = Inr (fs', l))
   \<and> header_row = [CStr ''timestamp'', CStr ''user_id'', CStr ''name'', CStr ''cpf'']
   \<and> log_access_event NoFault user ts fs =
       Inr (fs\<lparr>access_log :=
                 Some ((case access_log fs of None \<Rightarrow> [header_row] | Some rows \<Rightarrow> rows)
                       @ [access_row user ts])\<rparr>, InfoLogged)
   \<and> (\<forall>rows. access_log fs = Some rows \<longrightarrow>
         access_log (fst (log_access_try fault user ts fs)) = Some rows
         \<or> access_log (fst (log_access_try fault user ts fs)) = Some (rows @ [access_row user ts]))
   \<and> (\<forall>fs' e. log_access_try fault user ts fs = (fs', Some e) \<longrightarrow>
         log_access_event fault user ts fs = Inr (fs', ExceptionLogged e))"
  using log_access_event_returns [of fault user ts fs] log_access_event_ok [of user ts fs]
    log_access_try_keeps [of fs _ fault user ts] log_access_caught [of fault user ts fs]
  by (simp add: header_row_def)

theorem access_log_append_witness:
  "log_access_event NoFault ana_match ''t1''
       (empty_store\<lparr>access_log := Some [header_row]\<rparr>)
     = Inr (empty_store\<lparr>access_log := Some [header_row, [CStr ''t1'', CInt 1, CStr ''Ana'', CNone]]\<rparr>,
            InfoLogged)
   \<and> log_access_event RowWriteFails ana_match ''t1''
       (empty_store\<lparr>access_log := Some [header_row]\<rparr>)
     = Inr (empty_store\<lparr>access_log := Some [header_row]\<rparr>, ExceptionLogged OSError)"
  using access_log_append [of NoFault ana_match "''t1''" "empty_store\<lparr>access_log := Some [header_row]\<rparr>"]
    access_log_append [of RowWriteFails ana_match "''t1''" "empty_store\<lparr>access_log := Some [header_row]\<rparr>"]
  by (simp add: log_access_try_def access_row_def ana_match_def empty_store_def)

text \<open>
  C9 as the claim words it names the second column \<^verbatim>\<open>subject_id\<close>; the header written to
  a new file names it \<^verbatim>\<open>user_id\<close>.
\<close>

theorem access_log_header_counterexample:
  "log_access_event NoFault ana_match ''t1'' empty_store
     = Inr (empty_store\<lparr>access_log :=
              Some [[CStr ''timestamp'', CStr ''user_id'', CStr ''name'', CStr ''cpf''],
                    [CStr ''t1'', CInt 1, CStr ''Ana'', CNone]]\<rparr>, InfoLogged)
   \<and> [CStr ''timestamp'', CStr ''user_id'', CStr ''name'', CStr ''cpf'']
       \<noteq> [CStr ''timestamp'', CStr ''subject_id'', CStr ''name'', CStr ''cpf'']"
  by (simp add: log_access_event_def log_access_try_def header_row_def access_row_def
        ana_match_def empty_store_def)

section \<open>Properties of the embedding builder\<close>
















section \<open>Properties of the liveness filter\<close>

lemma sum_absdiff_same:
  "sum_list (map2 (\<lambda>a b. if b \<le> a then a - b else b - a) g g) = (0::nat)"
  by (induction g) auto

lemma mean_absdiff_same: "mean_absdiff g g = 0"
  by (simp add: mean_absdiff_def sum_absdiff_same)

lemma mean_absdiff_gray_crop:
  "mean_absdiff (gray_crop a) (gray_crop b) = real (if b \<le> a then a - b else b - a)"
  by (simp add: mean_absdiff_def gray_crop_def sum_list_replicate)

lemma liveness_first:
  "prev_face_roi_gray st = None \<Longrightarrow>
     liveness g st = (st\<lparr>prev_face_roi_gray := Some g, static_frames := 0\<rparr>, True)"
  by (simp add: liveness_def static_update_def LIVENESS_STATIC_FRAMES_def)

lemma liveness_same:
  "prev_face_roi_gray st = Some g \<Longrightarrow>
     liveness g st = (st\<lparr>prev_face_roi_gray := Some g, static_frames := static_frames st + 1\<rparr>,
                      \<not> 10 \<le> static_frames st + 1)"
  by (simp add: liveness_def static_update_def LIVENESS_STATIC_FRAMES_def
        LIVENESS_DIFF_THRESHOLD_def mean_absdiff_same)

lemma liveness_run_same:
  "prev_face_roi_gray st = Some g \<Longrightarrow>
     fst (liveness_run (replicate n g) st)
       = st\<lparr>prev_face_roi_gray := Some g, static_frames := static_frames st + n\<rparr>"
proof (induction n arbitrary: st)
  case 0
  then show ?case by simp
next
  case (Suc n)
  let ?st1 = "st\<lparr>prev_face_roi_gray := Some g, static_frames := static_frames st + 1\<rparr>"
  have p: "prev_face_roi_gray ?st1 = Some g" by simp
  show ?case
    using Suc.IH [OF p] Suc.prems
    by (simp add: liveness_same)
qed

lemma liveness_run_identical:
  "fst (liveness_run (replicate (Suc n) g) initial_state)
     = initial_state\<lparr>prev_face_roi_gray := Some g, static_frames := n\<rparr>"
  using liveness_run_same [of "initial_state\<lparr>prev_face_roi_gray := Some g, static_frames := 0\<rparr>" g n]
  by (simp add: liveness_first initial_state_def)

lemma liveness_after_identical:
  "snd (liveness g (fst (liveness_run (replicate n g) initial_state))) \<longleftrightarrow> n < 10"
proof (cases n)
  case 0
  then show ?thesis by (simp add: liveness_first initial_state_def)
next
  case (Suc m)
  have "prev_face_roi_gray (initial_state\<lparr>prev_face_roi_gray := Some g, static_frames := m\<rparr>)
          = Some g" by simp
  from liveness_same [OF this] Suc show ?thesis
    by (simp add: liveness_run_identical del: replicate_Suc liveness_run.simps) arith
qed

lemma liveness_run_snoc:
  "liveness_run (gs @ [g]) st
     = (fst (liveness g (fst (liveness_run gs st))),
        snd (liveness_run gs st) @ [snd (liveness g (fst (liveness_run gs st)))])"
  by (induction gs arbitrary: st) simp_all

lemma liveness_reset:
  assumes "length h = length g" "1 \<le> mean_absdiff h g"
  shows "static_frames (fst (liveness_run (replicate n g @ [h]) initial_state)) = 0"
proof (cases n)
  case 0
  then show ?thesis by (simp add: liveness_first initial_state_def)
next
  case (Suc m)
  then show ?thesis using assms
    by (simp add: liveness_run_snoc liveness_run_identical liveness_def static_update_def
          LIVENESS_DIFF_THRESHOLD_def del: replicate_Suc liveness_run.simps)
qed

lemma liveness_run_12:
  "snd (liveness_run (replicate 12 g) initial_state)
     = [True, True, True, True, True, True, True, True, True, True, False, False]"
  by (simp add: eval_nat_numeral liveness_def static_update_def mean_absdiff_same
        initial_state_def LIVENESS_STATIC_FRAMES_def LIVENESS_DIFF_THRESHOLD_def)

text \<open>
  C6, with the frames counted.  For each crop the static counter becomes one more than it
  was when the mean absolute difference from the previous crop is below 1.0, and zero
  otherwise, also when there is no previous crop or its shape differs; the crop becomes
  the previous crop; and the frame is classified static exactly when the new counter is at
  least 10.  A crop that follows \<open>n\<close> crops identical to it is classified live exactly when
  \<open>n < 10\<close>: of twelve identical crops the first ten are live, the eleventh and the twelfth
  static.  A crop of the same shape whose mean difference from the crops before it is at
  least 1.0 puts the counter back to zero.
\<close>

theorem liveness_filter:
  "static_frames (fst (liveness g st))
     = (case prev_face_roi_gray st of
          None \<Rightarrow> 0
        | Some p \<Rightarrow> if length p = length g \<and> mean_absdiff g p < 1
                     then static_frames st + 1 else 0)
   \<and> prev_face_roi_gray (fst (liveness g st)) = Some g
   \<and> (\<not> snd (liveness g st) \<longleftrightarrow> 10 \<le> static_frames (fst (liveness g st)))
   \<and> (snd (liveness g (fst (liveness_run (replicate n g) initial_state))) \<longleftrightarrow> n < 10)
   \<and> snd (liveness_run (replicate 12 g) initial_state)
       = [True, True, True, True, True, True, True, True, True, True, False, False]
   \<and> (length h = length g \<and> 1 \<le> mean_absdiff h g \<longrightarrow>
        static_frames (fst (liveness_run (replicate n g @ [h]) initial_state)) = 0)"
proof (intro conjI impI)
  show "static_frames (fst (liveness g st))
     = (case prev_face_roi_gray st of
          None \<Rightarrow> 0
        | Some p \<Rightarrow> if length p = length g \<and> mean_absdiff g p < 1
                     then static_frames st + 1 else 0)"
    by (simp add: liveness_def Let_def static_update_def LIVENESS_DIFF_THRESHOLD_def
          split: option.splits)
  show "prev_face_roi_gray (fst (liveness g st)) = Some g"
    by (simp add: liveness_def Let_def)
  show "(\<not> snd (liveness g st)) = (10 \<le> static_frames (fst (liveness g st)))"
    by (simp add: liveness_def Let_def LIVENESS_STATIC_FRAMES_def)
  show "snd (liveness g (fst (liveness_run (replicate n g) initial_state))) = (n < 10)"
    by (rule liveness_after_identical)
  show "snd (liveness_run (replicate 12 g) initial_state)
       = [True, True, True, True, True, True, True, True, True, True, False, False]"
    by (rule liveness_run_12)
next
  assume "length h = length g \<and> 1 \<le> mean_absdiff h g"
  then show "static_frames (fst (liveness_run (replicate n g @ [h]) initial_state)) = 0"
    using liveness_reset [of h g n] by simp
qed

theorem liveness_filter_witness:
  "static_frames (fst (liveness_run (replicate 10 (gray_crop 100) @ [gray_crop 120])
                         initial_state)) = 0
   \<and> static_frames (fst (liveness_run (replicate 11 (gray_crop 100)) initial_state)) = 10"
proof -
  have "(11::nat) = Suc 10" by simp
  then have "static_frames (fst (liveness_run (replicate 11 (gray_crop 100)) initial_state)) = 10"
    by (simp only: liveness_run_identical) simp
  moreover have "length (gray_crop 120) = length (gray_crop 100)
                 \<and> 1 \<le> mean_absdiff (gray_crop 120) (gray_crop 100)"
    by (simp add: mean_absdiff_gray_crop) (simp add: gray_crop_def)
  ultimately show ?thesis
    using liveness_filter [where g = "gray_crop 100" and h = "gray_crop 120" and n = 10]
    by blast
qed

text \<open>
  C6 as the claim words it, with the frames counted from one, calls the tenth of twelve
  identical crops static.  The counter counts comparisons with the previous crop: after the
  tenth crop it is nine, and the tenth crop is classified live.
\<close>

theorem liveness_tenth_crop_counterexample:
  "snd (liveness_run (replicate 12 (gray_crop 100)) initial_state) ! 9 = True
   \<and> static_frames (fst (liveness_run (replicate 10 (gray_crop 100)) initial_state)) = 9"
proof -
  have "(10::nat) = Suc 9" by simp
  then have "static_frames (fst (liveness_run (replicate 10 (gray_crop 100)) initial_state)) = 9"
    by (simp only: liveness_run_identical) simp
  then show ?thesis
    by (simp add: liveness_run_12 del: liveness_run.simps)
qed

section \<open>Properties of the match engine\<close>

lemma argmin_from_first_min:
  assumes "bi < i" "i \<le> length ys" "bv = ys ! bi"
    and "\<forall>j<i. ys ! bi \<le> ys ! j" and "\<forall>j<bi. ys ! bi < ys ! j"
  shows "argmin_from bi bv i (drop i ys) < length ys
         \<and> (\<forall>j<length ys. ys ! argmin_from bi bv i (drop i ys) \<le> ys ! j)
         \<and> (\<forall>j<argmin_from bi bv i (drop i ys). ys ! argmin_from bi bv i (drop i ys) < ys ! j)"
  using assms
proof (induction "length ys - i" arbitrary: bi bv i)
  case 0
  then have "drop i ys = []" by simp
  with 0 show ?case by auto
next
  case (Suc n)
  then have lt: "i < length ys" by simp
  then have d: "drop i ys = ys ! i # drop (Suc i) ys"
    by (simp add: Cons_nth_drop_Suc)
  have n: "n = length ys - Suc i" using Suc.hyps(2) by simp
  show ?case
  proof (cases "ys ! i < bv")
    case True
    have a: "\<forall>j<Suc i. ys ! i \<le> ys ! j"
      using True Suc.prems(3,4) by (auto simp: less_Suc_eq)
    have b: "\<forall>j<i. ys ! i < ys ! j"
      using True Suc.prems(3,4) by force
    from Suc.hyps(1) [OF n _ _ refl a b] lt True d show ?thesis by simp
  next
    case False
    have a: "\<forall>j<Suc i. ys ! bi \<le> ys ! j"
      using False Suc.prems(3,4) by (auto simp: less_Suc_eq)
    from Suc.hyps(1) [OF n _ _ Suc.prems(3) a Suc.prems(5)] lt False d Suc.prems(1)
    show ?thesis by simp
  qed
qed

lemma argmin_first_min:
  assumes "argmin ys = Some r"
  shows "r < length ys \<and> (\<forall>j<length ys. ys ! r \<le> ys ! j) \<and> (\<forall>j<r. ys ! r < ys ! j)"
proof (cases ys)
  case Nil
  with assms show ?thesis by (simp add: argmin_def)
next
  case (Cons y rest)
  have "argmin_from 0 y 1 (drop 1 ys) < length ys
         \<and> (\<forall>j<length ys. ys ! argmin_from 0 y 1 (drop 1 ys) \<le> ys ! j)
         \<and> (\<forall>j<argmin_from 0 y 1 (drop 1 ys). ys ! argmin_from 0 y 1 (drop 1 ys) < ys ! j)"
    by (rule argmin_from_first_min) (simp_all add: Cons)
  with assms Cons show ?thesis by (simp add: argmin_def)
qed

lemma argmin_nonempty: "ys \<noteq> [] \<Longrightarrow> \<exists>r. argmin ys = Some r"
  by (cases ys) (simp_all add: argmin_def)




lemma sub_rows_length:
  "sub_rows rows q = Inr ds \<Longrightarrow> length ds = length rows"
  by (induction rows arbitrary: ds) (auto split: sum.splits)

lemma normalized_dists_length:
  "normalized_dists q embs = Inr ds \<Longrightarrow> length ds = length embs"
  by (auto simp: normalized_dists_def stack_def Let_def dest: sub_rows_length
        split: sum.splits list.splits if_splits)

lemma select_best_member:
  assumes "select_best embs ds thr = Inr (Some e, d)" "length ds = length embs"
  shows "e \<in> set embs"
proof -
  from assms(1) obtain idx where i: "argmin ds = Some idx" and e: "e = embs ! idx"
    by (auto simp: select_best_def Let_def split: option.splits if_splits)
  from argmin_first_min [OF i] assms(2) e show ?thesis by simp
qed

lemma find_best_match_member:
  assumes "find_best_match q embs thr = Inr (Some e, d)"
  shows "e \<in> set embs"
  using assms
  by (auto simp: find_best_match_def split: if_splits sum.splits
        dest: select_best_member normalized_dists_length)

lemma classifier_path_active:
  assumes "classifier_path sess q = (Some m, bp)"
  shows "\<exists>i. mid m = Some i \<and> i \<in> active_user_ids sess"
  using assms
  by (auto simp: classifier_path_def Let_def split: option.splits if_splits)

lemma session_init_filtered_ok: "filtered_ok (session_init thr bundle fs)"
  by (auto simp: filtered_ok_def session_init_def Let_def list_all_iff split: option.splits)

lemma session_init_active:
  "active_user_ids (session_init thr bundle fs) = {i. \<exists>u \<in> set (load_users fs). uid u = Some i}"
  by (force simp: session_init_def Let_def List.map_filter_def)

lemma distance_path_active:
  assumes "filtered_ok sess" "distance_path sess q None = Inr (Some m, d)"
  shows "\<exists>i. mid m = Some i \<and> i \<in> active_user_ids sess"
proof -
  from assms(2) obtain e d' where f: "find_best_match q (filtered_embeddings sess) (threshold sess) = Inr (Some e, d')"
    and m: "m = match_of_emb e"
    by (auto simp: distance_path_def split: if_splits sum.splits)
  from find_best_match_member [OF f] assms(1) m show ?thesis
    by (auto simp: filtered_ok_def list_all_iff match_of_emb_def split: option.splits)
qed

lemma match_engine_active:
  assumes "filtered_ok sess" "match_engine sess q = Inr (Some m, d, bp)"
  shows "\<exists>i. mid m = Some i \<and> i \<in> active_user_ids sess"
proof (cases "fst (classifier_path sess q)")
  case None
  with assms(2) have "\<exists>d'. distance_path sess q None = Inr (Some m, d')"
    by (auto simp: match_engine_def split: prod.splits sum.splits)
  with distance_path_active [OF assms(1)] show ?thesis by blast
next
  case (Some m')
  then obtain bp' where c: "classifier_path sess q = (Some m', bp')"
    by (cases "classifier_path sess q") auto
  with assms(2) have "m = m'"
    by (auto simp: match_engine_def distance_path_def split: sum.splits)
  with classifier_path_active [OF c] show ?thesis by simp
qed

lemma stability_gate_events:
  assumes "stability_gate m t st = (st', evs)" "ev \<in> set evs"
  shows "ev = (m, t) \<and> mid m \<noteq> None"
  using assms
  by (auto simp: stability_gate_def split: option.splits if_splits)

lemma box_stage_events:
  assumes "box_stage fr r mo st = (st', live, evs)" "ev \<in> set evs"
  shows "\<exists>m. mo = Some m \<and> ev = (m, now fr)"
  using assms
  by (auto simp: box_stage_def Let_def split: option.splits prod.splits if_splits
        dest: stability_gate_events)

lemma process_frame_active:
  assumes ok: "filtered_ok sess" and p: "process_frame sess fr st = Inr (st', out)"
  shows "(\<forall>ev \<in> set (events out). \<exists>i. mid (fst ev) = Some i \<and> i \<in> active_user_ids sess)
         \<and> (\<forall>m. shown out = Some m \<longrightarrow> (\<exists>i. mid m = Some i \<and> i \<in> active_user_ids sess))"
proof (cases "reps fr")
  case None
  with p show ?thesis by (auto simp: process_frame_def)
next
  case (Some r)
  from p Some obtain mo d bp st1 live evs where
    me: "match_engine sess (query_emb r) = Inr (mo, d, bp)"
    and bs: "box_stage fr r mo st = (st1, live, evs)"
    and out: "events out = evs" "shown out = recheck (active_user_ids sess) mo"
    by (auto simp: process_frame_def Let_def split: sum.splits prod.splits)
  have a: "\<forall>ev \<in> set (events out). \<exists>i. mid (fst ev) = Some i \<and> i \<in> active_user_ids sess"
  proof
    fix ev assume "ev \<in> set (events out)"
    with out(1) box_stage_events [OF bs] obtain m where "mo = Some m" "ev = (m, now fr)" by blast
    with match_engine_active [OF ok] me show "\<exists>i. mid (fst ev) = Some i \<and> i \<in> active_user_ids sess"
      by auto
  qed
  have b: "\<forall>m. shown out = Some m \<longrightarrow> (\<exists>i. mid m = Some i \<and> i \<in> active_user_ids sess)"
    using out(2) by (auto simp: recheck_def split: option.splits if_splits)
  from a b show ?thesis by blast
qed

lemma recognize_loop_active:
  assumes ok: "filtered_ok sess"
    and acc: "\<forall>ev \<in> set evs. \<exists>i. mid (fst ev) = Some i \<and> i \<in> active_user_ids sess"
  shows "\<forall>ev \<in> set (snd (snd (recognize_loop sess frames st evs))).
           \<exists>i. mid (fst ev) = Some i \<and> i \<in> active_user_ids sess"
  using acc
proof (induction frames arbitrary: st evs)
  case Nil
  then show ?case by simp
next
  case (Cons fr frames)
  show ?case
  proof (cases "ret fr")
    case False
    with Cons.prems show ?thesis by simp
  next
    case True
    show ?thesis
    proof (cases "process_frame sess fr st")
      case (Inl e)
      with True Cons.prems show ?thesis by simp
    next
      case (Inr res)
      obtain st' out where res: "res = (st', out)" by (cases res)
      have pf: "process_frame sess fr st = Inr (st', out)" using Inr res by simp
      from process_frame_active [OF ok pf] Cons.prems
      have acc': "\<forall>ev \<in> set (evs @ events out). \<exists>i. mid (fst ev) = Some i \<and> i \<in> active_user_ids sess"
        by auto
      from Cons.IH [OF acc', of st'] acc' True Inr res show ?thesis by simp
    qed
  qed
qed

lemma length_gray_crop: "length (gray_crop v) = 4096"
  by (simp add: gray_crop_def)

lemma demo_session:
  "session_init thr b enrolled
     = \<lparr>threshold = thr, active_user_ids = {1, 2},
        filtered_embeddings = [ana_emb, bruno_emb], classifier = b\<rparr>"
  by (simp add: session_init_def Let_def enrolled_def two_users_def empty_store_def
        load_users_def load_embeddings_def List.map_filter_simps ana_def bruno_def
        ana_emb_def bruno_emb_def insert_commute)

lemma demo_active: "active_user_ids (session_init thr b enrolled) = {1, 2}"
  by (simp add: demo_session)

lemma demo_classifier:
  "classifier_path (session_init thr (Some demo_bundle) enrolled) q = (Some ana_match, Some (9 / 10))"
  by (simp add: demo_session classifier_path_def demo_bundle_def argmax_def
        CLASSIFIER_MIN_PROBA_def ana_match_def)

lemma demo_engine:
  "match_engine (session_init thr (Some demo_bundle) enrolled) q
     = Inr (Some ana_match, None, Some (9 / 10))"
  by (simp add: match_engine_def demo_classifier distance_path_def)

lemma demo_frame_1:
  "process_frame (session_init thr (Some demo_bundle) enrolled) (live_frame 100 0) initial_state
     = Inr (initial_state\<lparr>prev_face_roi_gray := Some (gray_crop 100),
                           pending_user_id := Some 1, pending_start_time := Some 0\<rparr>,
            \<lparr>events = [], shown = Some ana_match, is_live = Some True\<rparr>)"
  by (simp add: process_frame_def live_frame_def face_def demo_engine box_stage_def
        clamp_box_def liveness_def static_update_def initial_state_def stability_gate_def
        ana_match_def recheck_def demo_active LIVENESS_STATIC_FRAMES_def)

lemma demo_frame_2:
  "process_frame (session_init thr (Some demo_bundle) enrolled) (live_frame 120 3000000)
       (initial_state\<lparr>prev_face_roi_gray := Some (gray_crop 100),
                       pending_user_id := Some 1, pending_start_time := Some 0\<rparr>)
     = Inr (initial_state\<lparr>prev_face_roi_gray := Some (gray_crop 120),
                           last_recognized_user_id := Some 1,
                           pending_user_id := Some 1, pending_start_time := Some 0\<rparr>,
            \<lparr>events = [(ana_match, 3000000)], shown = Some ana_match, is_live = Some True\<rparr>)"
  by (simp add: process_frame_def live_frame_def face_def demo_engine box_stage_def
        clamp_box_def liveness_def static_update_def initial_state_def stability_gate_def
        ana_match_def recheck_def demo_active LIVENESS_STATIC_FRAMES_def
        LIVENESS_DIFF_THRESHOLD_def length_gray_crop mean_absdiff_gray_crop
        stability_window_def)

lemma demo_run:
  "recognize_from_camera thr (Some demo_bundle) True
       [live_frame 100 0, live_frame 120 3000000] enrolled
     = Some (CameraRunning,
             initial_state\<lparr>prev_face_roi_gray := Some (gray_crop 120),
                            last_recognized_user_id := Some 1,
                            pending_user_id := Some 1, pending_start_time := Some 0\<rparr>,
             [(ana_match, 3000000)])"
proof -
  have r: "ret (live_frame v t)" "key (live_frame v t) = 255" for v t
    by (simp_all add: live_frame_def)
  show ?thesis
    by (simp add: recognize_from_camera_def demo_frame_1 demo_frame_2 r)
qed

text \<open>
  C1.  The active subjects of a session are the ids of the records of \<^verbatim>\<open>load_users\<close>.  A
  match of the classifier path has an active id, and so has a match of the distance path;
  every access event a session logs, whatever frames the camera delivers, is for an active
  id, and so is every match an overlay shows.  A match whose id is missing or inactive is
  dropped by the re-check, and the gate logs nothing for a match without id.
\<close>

theorem active_subjects_only:
  "active_user_ids (session_init thr cb fs)
     = {i. \<exists>u \<in> set (load_users fs). uid u = Some i}
   \<and> (\<forall>m bp. classifier_path (session_init thr cb fs) q = (Some m, bp) \<longrightarrow>
         (\<exists>i. mid m = Some i \<and> i \<in> active_user_ids (session_init thr cb fs)))
   \<and> (\<forall>m d. distance_path (session_init thr cb fs) q None = Inr (Some m, d) \<longrightarrow>
         (\<exists>i. mid m = Some i \<and> i \<in> active_user_ids (session_init thr cb fs)))
   \<and> (\<forall>e st evs. recognize_from_camera thr cb cam frames fs = Some (e, st, evs) \<longrightarrow>
         (\<forall>ev \<in> set evs. \<exists>i. mid (fst ev) = Some i
                              \<and> i \<in> active_user_ids (session_init thr cb fs)))
   \<and> (\<forall>st st' out m. process_frame (session_init thr cb fs) fr st = Inr (st', out)
                        \<and> shown out = Some m \<longrightarrow>
         (\<exists>i. mid m = Some i \<and> i \<in> active_user_ids (session_init thr cb fs)))
   \<and> (\<forall>m active. (case mid m of None \<Rightarrow> True | Some i \<Rightarrow> i \<notin> active) \<longrightarrow>
         recheck active (Some m) = None)
   \<and> (\<forall>m t st. mid m = None \<longrightarrow> snd (stability_gate m t st) = [])"
proof (intro conjI allI impI)
  show "active_user_ids (session_init thr cb fs)
          = {i. \<exists>u \<in> set (load_users fs). uid u = Some i}"
    by (rule session_init_active)
next
  fix m bp
  assume "classifier_path (session_init thr cb fs) q = (Some m, bp)"
  then show "\<exists>i. mid m = Some i \<and> i \<in> active_user_ids (session_init thr cb fs)"
    by (rule classifier_path_active)
next
  fix m d
  assume "distance_path (session_init thr cb fs) q None = Inr (Some m, d)"
  with session_init_filtered_ok
  show "\<exists>i. mid m = Some i \<and> i \<in> active_user_ids (session_init thr cb fs)"
    by (rule distance_path_active)
next
  fix e st evs
  assume "recognize_from_camera thr cb cam frames fs = Some (e, st, evs)"
  then have "evs = snd (snd (recognize_loop (session_init thr cb fs) frames initial_state []))"
    by (auto simp: recognize_from_camera_def split: if_splits)
  moreover have "\<forall>ev \<in> set (snd (snd (recognize_loop (session_init thr cb fs) frames
                                   initial_state []))).
                   \<exists>i. mid (fst ev) = Some i \<and> i \<in> active_user_ids (session_init thr cb fs)"
    by (rule recognize_loop_active [OF session_init_filtered_ok]) simp
  ultimately show "\<forall>ev \<in> set evs. \<exists>i. mid (fst ev) = Some i
                            \<and> i \<in> active_user_ids (session_init thr cb fs)"
    by simp
next
  fix st st' out m
  assume "process_frame (session_init thr cb fs) fr st = Inr (st', out) \<and> shown out = Some m"
  then show "\<exists>i. mid m = Some i \<and> i \<in> active_user_ids (session_init thr cb fs)"
    using process_frame_active [OF session_init_filtered_ok] by blast
next
  fix m :: match and active :: "int set"
  assume "case mid m of None \<Rightarrow> True | Some i \<Rightarrow> i \<notin> active"
  then show "recheck active (Some m) = None"
    by (auto simp: recheck_def split: option.splits)
next
  fix m :: match and t st
  assume "mid m = None"
  then show "snd (stability_gate m t st) = []"
    by (simp add: stability_gate_def)
qed

theorem active_subjects_only_witness:
  "recognize_from_camera (6 / 10) (Some demo_bundle) True
       [live_frame 100 0, live_frame 120 3000000] enrolled
     = Some (CameraRunning,
             initial_state\<lparr>prev_face_roi_gray := Some (gray_crop 120),
                            last_recognized_user_id := Some 1,
                            pending_user_id := Some 1, pending_start_time := Some 0\<rparr>,
             [(ana_match, 3000000)])
   \<and> mid ana_match = Some 1
   \<and> 1 \<in> active_user_ids (session_init (6 / 10) (Some demo_bundle) enrolled)"
proof -
  have a: "recognize_from_camera (6 / 10) (Some demo_bundle) True
       [live_frame 100 0, live_frame 120 3000000] enrolled
     = Some (CameraRunning,
             initial_state\<lparr>prev_face_roi_gray := Some (gray_crop 120),
                            last_recognized_user_id := Some 1,
                            pending_user_id := Some 1, pending_start_time := Some 0\<rparr>,
             [(ana_match, 3000000)])"
    by (rule demo_run)
  have b: "mid ana_match = Some 1" by (simp add: ana_match_def)
  have c: "1 \<in> active_user_ids (session_init (6 / 10) (Some demo_bundle) enrolled)"
    by (simp add: demo_active)
  from a b c show ?thesis
    using active_subjects_only [where thr = "6 / 10" and cb = "Some demo_bundle"
      and cam = True and frames = "[live_frame 100 0, live_frame 120 3000000]"
      and fs = enrolled]
    by blast
qed











end
